theory Spec2Isabelle
  imports Main "HOL-Library.Sublist"
begin

section \<open>Python string primitives\<close>

text \<open>
  A Python \<open>str\<close> is modelled as a \<open>string\<close>: a list of characters, each one standing
  for a code point below 256. The functions of this section are the methods of \<open>str\<close>
  that \<open>subagent_diff.py\<close> calls, restricted to those code points.
\<close>

definition dquote :: char where
  "dquote = CHR 0x22"

definition backslash :: char where
  "backslash = CHR 0x5C"

definition squote :: char where
  "squote = CHR 0x27"

definition newline :: char where
  "newline = CHR 0x0A"

text \<open>\<open>ch.isspace()\<close>: the code points below 256 that Python counts as whitespace.\<close>

definition isspace :: "char \<Rightarrow> bool" where
  "isspace c = (c \<in> set [CHR 0x09, CHR 0x0A, CHR 0x0B, CHR 0x0C, CHR 0x0D,
                           CHR 0x1C, CHR 0x1D, CHR 0x1E, CHR 0x1F, CHR 0x20,
                           CHR 0x85, CHR 0xA0])"

definition lstrip_by :: "(char \<Rightarrow> bool) \<Rightarrow> string \<Rightarrow> string" where
  "lstrip_by P s = dropWhile P s"

definition rstrip_by :: "(char \<Rightarrow> bool) \<Rightarrow> string \<Rightarrow> string" where
  "rstrip_by P s = rev (dropWhile P (rev s))"

definition strip_by :: "(char \<Rightarrow> bool) \<Rightarrow> string \<Rightarrow> string" where
  "strip_by P s = rstrip_by P (lstrip_by P s)"

text \<open>\<open>s.strip()\<close>, \<open>s.lstrip()\<close> and \<open>s.strip('"')\<close>.\<close>

definition strip :: "string \<Rightarrow> string" where
  "strip s = strip_by isspace s"

definition lstrip :: "string \<Rightarrow> string" where
  "lstrip s = lstrip_by isspace s"

definition strip_dquote :: "string \<Rightarrow> string" where
  "strip_dquote s = strip_by (\<lambda>c. c = dquote) s"

text \<open>\<open>s.replace(old, new)\<close> for a one-character \<open>old\<close>.\<close>

definition replace :: "char \<Rightarrow> string \<Rightarrow> string \<Rightarrow> string" where
  "replace old new s = concat (map (\<lambda>c. if c = old then new else [c]) s)"

definition startswith :: "string \<Rightarrow> string \<Rightarrow> bool" where
  "startswith s p = prefix p s"

definition endswith :: "string \<Rightarrow> string \<Rightarrow> bool" where
  "endswith s p = suffix p s"

text \<open>\<open>sep.join(xs)\<close>.\<close>

fun join :: "string \<Rightarrow> string list \<Rightarrow> string" where
  "join sep [] = []"
| "join sep [x] = x"
| "join sep (x # y # xs) = x @ sep @ join sep (y # xs)"

text \<open>
  \<open>s.splitlines()\<close>: the line boundaries below 256 are LF, CR, CR LF, VT, FF, FS, GS, RS
  and NEL; a final boundary opens no empty last line.
\<close>

definition is_linebreak :: "char \<Rightarrow> bool" where
  "is_linebreak c = (c \<in> set [CHR 0x0A, CHR 0x0B, CHR 0x0C, CHR 0x0D,
                                CHR 0x1C, CHR 0x1D, CHR 0x1E, CHR 0x85])"

fun splitlines_from :: "string \<Rightarrow> string \<Rightarrow> string list" where
  "splitlines_from cur [] = (if cur = [] then [] else [cur])"
| "splitlines_from cur [c] =
     (if is_linebreak c then [cur] else [cur @ [c]])"
| "splitlines_from cur (c # d # cs) =
     (if c = CHR 0x0D \<and> d = CHR 0x0A then cur # splitlines_from [] cs
      else if is_linebreak c then cur # splitlines_from [] (d # cs)
      else splitlines_from (cur @ [c]) (d # cs))"

definition splitlines :: "string \<Rightarrow> string list" where
  "splitlines s = splitlines_from [] s"

section \<open>Paths\<close>

text \<open>
  A \<open>pathlib\<close> path of the POSIX flavour: the anchor (empty for a relative path, the root
  otherwise) and the components below it.
\<close>

datatype path = Path (anchor: string) (parts: "string list")

definition as_posix :: "path \<Rightarrow> string" where
  "as_posix p =
     (if parts p = [] then (if anchor p = [] then ''.'' else anchor p)
      else anchor p @ join ''/'' (parts p))"

section \<open>PathNormalizer\<close>

text \<open>
  \<open>normalize_path_value\<close> loops over the Python set
  \<open>{pre_dir.as_posix(), post_dir.as_posix()}\<close>. A set holds each element once and is
  iterated in hash order, so the order of two distinct prefixes is not fixed by the
  source: it is the parameter \<open>pre_first\<close> of the model.
\<close>

definition prefix_set :: "bool \<Rightarrow> path \<Rightarrow> path \<Rightarrow> string list" where
  "prefix_set pre_first pre_dir post_dir =
     (if as_posix pre_dir = as_posix post_dir then [as_posix pre_dir]
      else if pre_first then [as_posix pre_dir, as_posix post_dir]
      else [as_posix post_dir, as_posix pre_dir])"

text \<open>One round of the loop over the prefixes.\<close>

definition strip_prefix_step :: "string \<Rightarrow> string \<Rightarrow> string" where
  "strip_prefix_step v pfx =
     (if startswith v (pfx @ ''/'') then drop (length pfx + 1) v
      else if v = pfx then []
      else v)"

definition normalize_path_value :: "bool \<Rightarrow> string \<Rightarrow> path \<Rightarrow> path \<Rightarrow> string" where
  "normalize_path_value pre_first p pre_dir post_dir =
     (let v0 = replace backslash ''/'' (strip_dquote (strip p));
          v1 = foldl strip_prefix_step v0 (prefix_set pre_first pre_dir post_dir)
      in if startswith v1 ''pre/'' then drop 4 v1
         else if startswith v1 ''post/'' then drop 5 v1
         else v1)"

definition is_excluded_path :: "string \<Rightarrow> bool" where
  "is_excluded_path p =
     (if p = [] then True
      else
        let c0 = replace backslash ''/'' (strip_dquote (strip p));
            c1 = (if startswith c0 ''./'' then drop 2 c0 else c0);
            c2 = (if startswith c1 ''a/'' \<or> startswith c1 ''b/'' then drop 2 c1 else c1)
        in c2 = ''.git'' \<or> startswith c2 ''.git/'')"

text \<open>\<open>text.startswith('"') and text.endswith('"')\<close>, and the slice \<open>text[1:-1]\<close>.\<close>

definition is_quoted :: "string \<Rightarrow> bool" where
  "is_quoted t = (startswith t [dquote] \<and> endswith t [dquote])"

definition unquote :: "string \<Rightarrow> string" where
  "unquote t = butlast (drop 1 t)"

definition extract_normalized_path :: "bool \<Rightarrow> string \<Rightarrow> path \<Rightarrow> path \<Rightarrow> string" where
  "extract_normalized_path pre_first token pre_dir post_dir =
     (let t0 = strip token;
          t1 = (if is_quoted t0 then unquote t0 else t0);
          t2 = (if startswith t1 ''a/'' \<or> startswith t1 ''b/'' then drop 2 t1 else t1)
      in normalize_path_value pre_first t2 pre_dir post_dir)"

text \<open>
  The loop of \<open>normalize_diff_token\<close> over \<open>("a/", "b/")\<close> that stops at the first match:
  the prefix found and the text behind it.
\<close>

definition split_diff_prefix :: "string \<Rightarrow> string \<times> string" where
  "split_diff_prefix t =
     (if startswith t ''a/'' then (''a/'', drop 2 t)
      else if startswith t ''b/'' then (''b/'', drop 2 t)
      else ([], t))"

definition normalize_diff_token :: "bool \<Rightarrow> string \<Rightarrow> path \<Rightarrow> path \<Rightarrow> string" where
  "normalize_diff_token pre_first token pre_dir post_dir =
     (let t0 = strip token;
          quoted = is_quoted t0;
          t1 = (if quoted then unquote t0 else t0);
          (pfx, t2) = split_diff_prefix t1;
          t3 = normalize_path_value pre_first t2 pre_dir post_dir;
          normalized = (if t3 \<noteq> [] then pfx @ t3 else rstrip_by (\<lambda>c. c = CHR ''/'') pfx)
      in if quoted then [dquote] @ normalized @ [dquote] else normalized)"




text \<open>
  The loop of \<open>normalize_stat_output\<close>; \<open>line.split("|", 1)\<close> cuts the line at its
  first bar.
\<close>

fun stat_lines :: "bool \<Rightarrow> path \<Rightarrow> path \<Rightarrow> string list \<Rightarrow> string list" where
  "stat_lines pre_first pre_dir post_dir [] = []"
| "stat_lines pre_first pre_dir post_dir (line # rest) =
     (if strip line = [] then stat_lines pre_first pre_dir post_dir rest
      else if CHR ''|'' \<in> set line then
        let path_part = takeWhile (\<lambda>c. c \<noteq> CHR ''|'') line;
            rest_part = drop 1 (dropWhile (\<lambda>c. c \<noteq> CHR ''|'') line);
            path_clean = normalize_path_value pre_first path_part pre_dir post_dir
        in if path_clean = [] \<or> is_excluded_path path_clean
           then stat_lines pre_first pre_dir post_dir rest
           else (path_clean @ '' | '' @ strip rest_part)
                  # stat_lines pre_first pre_dir post_dir rest
      else lstrip line # stat_lines pre_first pre_dir post_dir rest)"

definition normalize_stat_output :: "bool \<Rightarrow> string \<Rightarrow> path \<Rightarrow> path \<Rightarrow> string" where
  "normalize_stat_output pre_first raw pre_dir post_dir =
     join [newline] (stat_lines pre_first pre_dir post_dir (splitlines raw))"

definition normalize_patch_metadata_line :: "bool \<Rightarrow> string \<Rightarrow> path \<Rightarrow> path \<Rightarrow> string" where
  "normalize_patch_metadata_line pre_first line pre_dir post_dir =
     (if startswith line ''--- '' \<or> startswith line ''+++ '' then
        (if strip (drop 4 line) = ''/dev/null'' then line
         else take 4 line @ normalize_diff_token pre_first (drop 4 line) pre_dir post_dir)
      else if startswith line ''rename from '' then
        ''rename from '' @ normalize_diff_token pre_first (drop 12 line) pre_dir post_dir
      else if startswith line ''rename to '' then
        ''rename to '' @ normalize_diff_token pre_first (drop 10 line) pre_dir post_dir
      else line)"

subsection \<open>The tokenizer \<open>shlex.split\<close>\<close>

text \<open>
  \<open>handle_diff_header\<close> splits the rest of a header with \<open>shlex.split\<close> of the Python
  standard library: POSIX mode, \<open>whitespace_split\<close> on, no comment characters. The
  model follows \<open>shlex.read_token\<close>: the state of the lexer is \<open>Blank\<close> (the state
  \<open>' '\<close>), \<open>InWord\<close> (the state \<open>'a'\<close>), \<open>InQuote q\<close> (inside the quote \<open>q\<close>) or
  \<open>Escaped e\<close> (after a backslash, with \<open>escapedstate = e\<close>); \<open>quoted\<close> and \<open>token\<close>
  are the lexer's variables of the same names. \<open>None\<close> is the \<open>ValueError\<close> of an
  unclosed quote or of a backslash at the end.
\<close>

datatype lex_state = Blank | InWord | InQuote char | Escaped lex_state

definition shlex_whitespace :: "char \<Rightarrow> bool" where
  "shlex_whitespace c = (c \<in> set [CHR '' '', CHR 0x09, CHR 0x0D, CHR 0x0A])"

definition shlex_quote :: "char \<Rightarrow> bool" where
  "shlex_quote c = (c = squote \<or> c = dquote)"

definition emit :: "string \<Rightarrow> string list option \<Rightarrow> string list option" where
  "emit token r = (case r of None \<Rightarrow> None | Some ts \<Rightarrow> Some (token # ts))"

fun read_tokens :: "lex_state \<Rightarrow> bool \<Rightarrow> string \<Rightarrow> string \<Rightarrow> string list option" where
  "read_tokens Blank quoted token [] =
     (if token \<noteq> [] \<or> quoted then Some [token] else Some [])"
| "read_tokens Blank quoted token (c # cs) =
     (if shlex_whitespace c then
        (if token \<noteq> [] \<or> quoted then emit token (read_tokens Blank False [] cs)
         else read_tokens Blank quoted token cs)
      else if c = backslash then read_tokens (Escaped InWord) quoted token cs
      else if shlex_quote c then read_tokens (InQuote c) quoted token cs
      else read_tokens InWord quoted [c] cs)"
| "read_tokens InWord quoted token [] =
     (if token \<noteq> [] \<or> quoted then Some [token] else Some [])"
| "read_tokens InWord quoted token (c # cs) =
     (if shlex_whitespace c then
        (if token \<noteq> [] \<or> quoted then emit token (read_tokens Blank False [] cs)
         else read_tokens Blank quoted token cs)
      else if shlex_quote c then read_tokens (InQuote c) quoted token cs
      else if c = backslash then read_tokens (Escaped InWord) quoted token cs
      else read_tokens InWord quoted (token @ [c]) cs)"
| "read_tokens (InQuote q) quoted token [] = None"
| "read_tokens (InQuote q) quoted token (c # cs) =
     (if c = q then read_tokens InWord True token cs
      else if c = backslash \<and> q = dquote then read_tokens (Escaped (InQuote q)) True token cs
      else read_tokens (InQuote q) True (token @ [c]) cs)"
| "read_tokens (Escaped e) quoted token [] = None"
| "read_tokens (Escaped e) quoted token (c # cs) =
     (case e of
        InQuote q \<Rightarrow>
          (if c \<noteq> backslash \<and> c \<noteq> q
           then read_tokens e quoted (token @ [backslash] @ [c]) cs
           else read_tokens e quoted (token @ [c]) cs)
      | _ \<Rightarrow> read_tokens e quoted (token @ [c]) cs)"

definition shlex_split :: "string \<Rightarrow> string list option" where
  "shlex_split s = read_tokens Blank False [] s"

subsection \<open>Diff headers and the full patch\<close>

definition quote_if_needed :: "string \<Rightarrow> string" where
  "quote_if_needed v =
     (if list_ex isspace v
      then [dquote] @ replace dquote [backslash, dquote]
                        (replace backslash [backslash, backslash] v) @ [dquote]
      else v)"

definition handle_diff_header :: "bool \<Rightarrow> string \<Rightarrow> path \<Rightarrow> path \<Rightarrow> bool \<times> string option" where
  "handle_diff_header pre_first line pre_dir post_dir =
     (if \<not> startswith line ''diff --git '' then (False, Some line)
      else
        let remainder = strip (drop 11 line)
        in if remainder = [] then (False, Some line)
           else
             case shlex_split remainder of
               None \<Rightarrow> (False, Some line)
             | Some tokens \<Rightarrow>
                 if length tokens \<noteq> 2 then (False, Some line)
                 else
                   let left_token = quote_if_needed (tokens ! 0);
                       right_token = quote_if_needed (tokens ! 1);
                       left_path = extract_normalized_path pre_first left_token pre_dir post_dir;
                       right_path = extract_normalized_path pre_first right_token pre_dir post_dir
                   in if is_excluded_path left_path \<or> is_excluded_path right_path
                      then (True, None)
                      else
                        (False,
                         Some (''diff --git ''
                               @ normalize_diff_token pre_first left_token pre_dir post_dir
                               @ '' ''
                               @ normalize_diff_token pre_first right_token pre_dir post_dir)))"

text \<open>
  The loop of \<open>normalize_patch_output\<close>, with the flag \<open>skip_block\<close> as an argument;
  \<open>if normalized:\<close> is false for \<open>None\<close> and for the empty string.
\<close>

fun patch_lines :: "bool \<Rightarrow> path \<Rightarrow> path \<Rightarrow> bool \<Rightarrow> string list \<Rightarrow> string list" where
  "patch_lines pre_first pre_dir post_dir skip_block [] = []"
| "patch_lines pre_first pre_dir post_dir skip_block (line # rest) =
     (if startswith line ''diff --git '' then
        (case handle_diff_header pre_first line pre_dir post_dir of
           (skip', Some normalized) \<Rightarrow>
             (if normalized \<noteq> []
              then normalized # patch_lines pre_first pre_dir post_dir skip' rest
              else patch_lines pre_first pre_dir post_dir skip' rest)
         | (skip', None) \<Rightarrow> patch_lines pre_first pre_dir post_dir skip' rest)
      else if skip_block then patch_lines pre_first pre_dir post_dir skip_block rest
      else normalize_patch_metadata_line pre_first line pre_dir post_dir
             # patch_lines pre_first pre_dir post_dir skip_block rest)"

definition normalize_patch_output :: "bool \<Rightarrow> string \<Rightarrow> path \<Rightarrow> path \<Rightarrow> string" where
  "normalize_patch_output pre_first raw pre_dir post_dir =
     join [newline] (patch_lines pre_first pre_dir post_dir False (splitlines raw))"

section \<open>External commands and files\<close>

text \<open>
  The exceptions the script raises or lets through, with what they carry:
  \<open>CalledProcessError\<close> has the return code, the command, the output and the stderr text.
\<close>

datatype exn =
    RuntimeError string
  | CalledProcessError int "string list" string string
  | ValueError

text \<open>
  \<open>subprocess.run\<close> either completes, with a return code and the two captured streams
  (here already decoded by \<open>decode_bytes\<close>), or raises \<open>TimeoutExpired\<close>. What a command
  does is not the script's to decide: it is a parameter, a function of the commands run
  so far and of the command (its argument vector and working directory).
\<close>

datatype proc_result = Completed int string string | TimeoutExpired

type_synonym command = "string list \<times> string"

type_synonym subprocess = "command list \<Rightarrow> command \<Rightarrow> proc_result"

text \<open>
  The state the script changes: the commands it has run, in order, and the text files
  it has written with \<open>write_text\<close>.
\<close>

record world =
  git_log :: "command list"
  files :: "path \<rightharpoonup> string"

text \<open>\<open>str(n)\<close> for a natural number, and \<open>str(p)\<close> for a path of the POSIX flavour.\<close>

fun str_nat :: "nat \<Rightarrow> string" where
  "str_nat n =
     (if n < 10 then [char_of (48 + n)]
      else str_nat (n div 10) @ [char_of (48 + n mod 10)])"

declare str_nat.simps [simp del]

definition str_path :: "path \<Rightarrow> string" where
  "str_path p = as_posix p"

definition run_git ::
  "subprocess \<Rightarrow> string list \<Rightarrow> path \<Rightarrow> int list \<Rightarrow> nat \<Rightarrow> world \<Rightarrow> (exn + string) \<times> world" where
  "run_git run args cwd allow_exit_codes timeout w =
     (let cmd = ''git'' # args;
          w' = w\<lparr>git_log := git_log w @ [(cmd, str_path cwd)]\<rparr>
      in case run (git_log w) (cmd, str_path cwd) of
           TimeoutExpired \<Rightarrow>
             (Inl (RuntimeError (''Git command timed out after '' @ str_nat timeout
                                 @ ''s: '' @ join '' '' cmd)), w')
         | Completed returncode out err \<Rightarrow>
             if returncode \<notin> set allow_exit_codes
             then (Inl (CalledProcessError returncode cmd out err), w')
             else (Inr (strip out), w'))"



section \<open>WorktreeManager\<close>

definition apply_patch ::
  "subprocess \<Rightarrow> path \<Rightarrow> path \<Rightarrow> path \<Rightarrow> world \<Rightarrow> (exn + unit) \<times> world" where
  "apply_patch run repo_root worktree_dir patch_path w =
     (case run_git run [''worktree'', ''add'', ''--detach'', str_path worktree_dir, ''HEAD'']
             repo_root [0] 300 w of
        (Inl e, w1) \<Rightarrow> (Inl e, w1)
      | (Inr _, w1) \<Rightarrow>
          (case run_git run [''-C'', str_path worktree_dir, ''apply'', ''--whitespace=nowarn'',
                             str_path patch_path] repo_root [0] 300 w1 of
             (Inr _, w2) \<Rightarrow> (Inr (), w2)
           | (Inl (CalledProcessError rc cmd out err), w2) \<Rightarrow>
               (case run_git run [''worktree'', ''remove'', ''-f'', str_path worktree_dir]
                       repo_root [0] 300 w2 of
                  (Inl (RuntimeError m), w3) \<Rightarrow> (Inl (RuntimeError m), w3)
                | (Inl ValueError, w3) \<Rightarrow> (Inl ValueError, w3)
                | (_, w3) \<Rightarrow>
                    (Inl (RuntimeError (''Failed to apply patch: '' @ str_path patch_path
                                        @ [newline] @ ''stderr: '' @ err)), w3))
           | (Inl e, w2) \<Rightarrow> (Inl e, w2)))"

section \<open>SafetyGuard\<close>

text \<open>The bundle \<open>Paths\<close> of the run.\<close>

record paths =
  output_dir :: path
  pre_patch :: path
  post_patch :: path
  work_base :: path
  work_base_parent :: path
  work_marker :: path
  pre_dir :: path
  post_dir :: path
  delta_file :: path
  stat_file :: path
  name_file :: path

text \<open>
  What the guard asks of the file system: \<open>Path.resolve\<close>, \<open>Path.exists\<close> and
  \<open>Path.is_dir\<close>, as they answer at the time of the call.
\<close>

record filesystem =
  fs_resolve :: "path \<Rightarrow> path"
  fs_exists :: "path \<Rightarrow> bool"
  fs_is_dir :: "path \<Rightarrow> bool"

text \<open>
  \<open>PurePath.relative_to\<close> compares the two paths component by component, without
  looking at the file system, and raises \<open>ValueError\<close> when \<open>other\<close> is not a leading
  part of the path. \<open>PurePath.parent\<close> and \<open>PurePath.name\<close> are lexical too.
\<close>

definition relative_to :: "path \<Rightarrow> path \<Rightarrow> exn + path" where
  "relative_to p other =
     (if anchor p = anchor other \<and> prefix (parts other) (parts p)
      then Inr (Path [] (drop (length (parts other)) (parts p)))
      else Inl ValueError)"

definition path_parent :: "path \<Rightarrow> path" where
  "path_parent p = Path (anchor p) (butlast (parts p))"

definition path_name :: "path \<Rightarrow> string" where
  "path_name p = (if parts p = [] then [] else last (parts p))"

definition is_relative_to :: "path \<Rightarrow> path \<Rightarrow> bool" where
  "is_relative_to p parent =
     (case relative_to p parent of Inr _ \<Rightarrow> True | Inl _ \<Rightarrow> False)"

definition is_top_level_path :: "filesystem \<Rightarrow> path \<Rightarrow> bool" where
  "is_top_level_path fs p = (let resolved = fs_resolve fs p in path_parent resolved = resolved)"

definition is_safe_work_base_target :: "filesystem \<Rightarrow> paths \<Rightarrow> path \<Rightarrow> bool" where
  "is_safe_work_base_target fs ps repo_root =
     (let wb = fs_resolve fs (work_base ps)
      in if \<not> fs_exists fs wb \<or> \<not> fs_is_dir fs wb then False
         else if is_top_level_path fs wb then False
         else
           let repo_root_resolved = fs_resolve fs repo_root;
               expected_parent = fs_resolve fs (work_base_parent ps)
           in if \<not> (is_relative_to wb repo_root_resolved \<or> is_relative_to wb expected_parent)
              then False
              else if wb \<in> set [repo_root_resolved, expected_parent] then False
              else
                let marker_exists = fs_exists fs (work_marker ps);
                    expected_name = sublist ''subagent_'' (path_name wb)
                in marker_exists \<or> expected_name)"

section \<open>DeltaEngine\<close>


section \<open>Canonical paths\<close>

text \<open>
  The form of a path that the normalizer has nothing left to do on: no whitespace and
  no double quote at either end, no backslash, not one of the two worktree roots nor
  below one, and no leading \<open>pre/\<close> or \<open>post/\<close>.
\<close>

definition canonical_path :: "string \<Rightarrow> path \<Rightarrow> path \<Rightarrow> bool" where
  "canonical_path p pre_root post_root =
     (strip p = p \<and> strip_dquote p = p \<and> backslash \<notin> set p
      \<and> \<not> startswith p (as_posix pre_root @ ''/'') \<and> p \<noteq> as_posix pre_root
      \<and> \<not> startswith p (as_posix post_root @ ''/'') \<and> p \<noteq> as_posix post_root
      \<and> \<not> startswith p ''pre/'' \<and> \<not> startswith p ''post/'')"

text \<open>
  A token that \<open>shlex.split\<close> reads as it stands, and that \<open>quote_if_needed\<close> leaves
  bare: no whitespace, no quote, no backslash.
\<close>

definition plain_token :: "string \<Rightarrow> bool" where
  "plain_token t =
     (\<not> list_ex (\<lambda>c. isspace c \<or> shlex_whitespace c \<or> shlex_quote c \<or> c = backslash) t)"

text \<open>The \<open>.git\<close> directory and the paths below it.\<close>

definition under_git :: "string \<Rightarrow> bool" where
  "under_git g = (g = ''.git'' \<or> startswith g ''.git/'')"

section \<open>An example run\<close>

text \<open>
  A configuration as \<open>build_paths\<close> makes it for the repository \<open>/repo\<close>, the subagent
  \<open>implementation\<close> and the process 7, with the scratch area under \<open>/tmp\<close>; and a file
  system without symbolic links that holds the repository, the scratch area with its
  marker, and a directory \<open>/tmp/other\<close> that the tool did not make.
\<close>

definition example_repo :: path where
  "example_repo = Path ''/'' [''repo'']"

definition example_work_base :: path where
  "example_work_base = Path ''/'' [''tmp'', ''subagent_repo_implementation_7'']"

definition example_paths :: paths where
  "example_paths =
     \<lparr>output_dir = Path ''/'' [''repo'', ''.subagent''],
      pre_patch = Path ''/'' [''repo'', ''.subagent'', ''pre_implementation.patch''],
      post_patch = Path ''/'' [''repo'', ''.subagent'', ''post_implementation.patch''],
      work_base = example_work_base,
      work_base_parent = Path ''/'' [''tmp''],
      work_marker = Path ''/'' [''tmp'', ''subagent_repo_implementation_7'',
                                ''.subagent_work_base_marker''],
      pre_dir = Path ''/'' [''tmp'', ''subagent_repo_implementation_7'', ''pre''],
      post_dir = Path ''/'' [''tmp'', ''subagent_repo_implementation_7'', ''post''],
      delta_file = Path ''/'' [''repo'', ''.subagent'', ''delta_implementation.patch''],
      stat_file = Path ''/'' [''repo'', ''.subagent'', ''delta_stat_implementation.txt''],
      name_file = Path ''/'' [''repo'', ''.subagent'', ''delta_files_implementation.txt'']\<rparr>"

definition example_fs :: filesystem where
  "example_fs =
     \<lparr>fs_resolve = (\<lambda>p. p),
      fs_exists = (\<lambda>p. p \<in> set [Path ''/'' [], Path ''/'' [''tmp''], example_repo,
                                  example_work_base, work_marker example_paths,
                                  Path ''/'' [''tmp'', ''other'']]),
      fs_is_dir = (\<lambda>p. p \<in> set [Path ''/'' [], Path ''/'' [''tmp''], example_repo,
                                  example_work_base, Path ''/'' [''tmp'', ''other'']])\<rparr>"

text \<open>
  A full patch as \<open>git diff --no-index pre post\<close> prints it in the scratch area: a block
  for a file below \<open>.git\<close>, then a block for \<open>src/a.txt\<close>.
\<close>

definition example_git_header :: string where
  "example_git_header = ''diff --git a/pre/.git/config b/post/.git/config''"

definition example_git_block :: "string list" where
  "example_git_block = [''--- a/pre/.git/config'', ''+++ b/post/.git/config'', ''@@ -1 +1 @@'']"

definition example_src_block :: "string list" where
  "example_src_block = [''diff --git a/pre/src/a.txt b/post/src/a.txt'',
                        ''--- a/pre/src/a.txt'', ''+++ b/post/src/a.txt'']"

definition example_delta :: string where
  "example_delta = join [newline] (example_git_header # example_git_block @ example_src_block)"

text \<open>A stat summary: one line for a file, and the closing line, which has no bar.\<close>

definition example_stat_summary :: string where
  "example_stat_summary = '' 1 file changed, 1 insertion(+) under pre/src''"

definition example_stat :: string where
  "example_stat = join [newline] ['' pre/src/a.txt | 2 +-'', example_stat_summary]"

text \<open>
  The state before the run, and two behaviours of \<open>git\<close>: one where every command
  succeeds and prints nothing, as when the two worktrees are equal, and one where the
  three diff queries find the change of \<open>src/a.txt\<close>.
\<close>

definition example_world :: world where
  "example_world = \<lparr>git_log = [], files = Map.empty\<rparr>"



text \<open>
  Two more behaviours of \<open>git\<close>: \<open>git apply\<close> exits with the status 1 and a diagnostic
  on stderr, and \<open>git apply\<close> runs into the timeout; every other command succeeds.
\<close>

definition example_run_apply_fails :: subprocess where
  "example_run_apply_fails =
     (\<lambda>log cmd. if ''apply'' \<in> set (fst cmd)
                 then Completed 1 [] ''error: patch failed: src/a.txt:1''
                 else Completed 0 [] [])"

definition example_run_apply_timeout :: subprocess where
  "example_run_apply_timeout =
     (\<lambda>log cmd. if ''apply'' \<in> set (fst cmd) then TimeoutExpired else Completed 0 [] [])"

text \<open>A header with a quoted path that has a space in it.\<close>

definition example_quoted_header :: string where
  "example_quoted_header =
     ''diff --git '' @ [dquote] @ ''a/pre/my file.txt'' @ [dquote] @ '' b/post/z.txt''"

section \<open>Facts about the string primitives\<close>

lemma startswith_append [simp]: "startswith (p @ r) p"
  by (simp add: startswith_def)

lemma replace_append: "replace a b (x @ y) = replace a b x @ replace a b y"
  by (simp add: replace_def)

lemma replace_absent: "a \<notin> set x \<Longrightarrow> replace a b x = x"
  by (induction x) (auto simp: replace_def)

lemma replace_backslash_free: "backslash \<notin> set (replace backslash ''/'' x)"
  by (induction x) (auto simp: replace_def backslash_def)

lemma lstrip_by_keep: "p \<noteq> [] \<Longrightarrow> \<not> P (hd p) \<Longrightarrow> lstrip_by P (p @ r) = p @ r"
  by (cases p) (auto simp: lstrip_by_def)

lemma rstrip_by_keep:
  assumes "p \<noteq> []" "\<not> P (last p)"
  shows "rstrip_by P (p @ r) = p @ rstrip_by P r"
proof (cases "\<forall>x\<in>set r. P x")
  case True
  have "dropWhile P (rev p) = rev p"
    using assms by (cases "rev p") (auto simp: last_rev [symmetric] hd_rev)
  moreover have "dropWhile P (rev r) = []"
    using True by simp
  moreover have "dropWhile P (rev r @ rev p) = dropWhile P (rev p)"
    by (rule dropWhile_append2) (use True in auto)
  ultimately show ?thesis
    by (simp add: rstrip_by_def)
next
  case False
  then show ?thesis
    by (auto simp: rstrip_by_def dropWhile_append1)
qed

lemma strip_by_keep:
  "p \<noteq> [] \<Longrightarrow> \<not> P (hd p) \<Longrightarrow> \<not> P (last p) \<Longrightarrow> strip_by P (p @ r) = p @ rstrip_by P r"
  by (simp add: strip_by_def lstrip_by_keep rstrip_by_keep)

lemma strip_by_id:
  "p \<noteq> [] \<Longrightarrow> \<not> P (hd p) \<Longrightarrow> \<not> P (last p) \<Longrightarrow> strip_by P p = p"
  using strip_by_keep [of p P "[]"] by (simp add: rstrip_by_def)

lemma strip_by_Nil [simp]: "strip_by P [] = []"
  by (simp add: strip_by_def lstrip_by_def rstrip_by_def)

lemma cleaned_keep:
  assumes "p \<noteq> []" "\<not> isspace (hd p)" "\<not> isspace (last p)"
    and "hd p \<noteq> dquote" "last p \<noteq> dquote" "backslash \<notin> set p"
  shows "\<exists>x. replace backslash ''/'' (strip_dquote (strip (p @ r))) = p @ x"
proof -
  have "strip (p @ r) = p @ rstrip_by isspace r"
    using assms by (simp add: strip_def strip_by_keep)
  moreover have "strip_dquote (p @ rstrip_by isspace r)
                 = p @ rstrip_by (\<lambda>c. c = dquote) (rstrip_by isspace r)"
    using assms by (simp add: strip_dquote_def strip_by_keep)
  ultimately show ?thesis
    using assms by (simp add: replace_append replace_absent)
qed

lemma cleaned_id:
  assumes "p \<noteq> []" "\<not> isspace (hd p)" "\<not> isspace (last p)"
    and "hd p \<noteq> dquote" "last p \<noteq> dquote" "backslash \<notin> set p"
  shows "replace backslash ''/'' (strip_dquote (strip p)) = p"
  using assms by (simp add: strip_def strip_dquote_def strip_by_id replace_absent)

lemma is_relative_to_iff:
  "is_relative_to p parent = (anchor p = anchor parent \<and> prefix (parts parent) (parts p))"
  by (simp add: is_relative_to_def relative_to_def)

lemmas example_defs = example_fs_def example_paths_def example_work_base_def example_repo_def
  is_top_level_path_def path_parent_def is_relative_to_iff path_name_def sublist_Cons_right

section \<open>SafetyGuard: the scratch area that may be deleted\<close>

text \<open>
  Claim C1. \<open>is_safe_work_base_target\<close> returns true only if the resolved scratch path
  exists, is a directory, is not a file system root, lies in the resolved repository root
  or in the resolved scratch parent, is neither of these two, and either the marker of the
  configuration exists or the name of the directory contains \<open>subagent_\<close>; and these
  conditions are all it asks. So it is false for a file system root, for the repository
  root itself, and for a directory with neither marker nor name, wherever it lies.
\<close>

theorem is_safe_work_base_target_conditions:
  "is_safe_work_base_target fs ps repo_root \<longleftrightarrow>
     (fs_exists fs (fs_resolve fs (work_base ps))
      \<and> fs_is_dir fs (fs_resolve fs (work_base ps))
      \<and> \<not> is_top_level_path fs (fs_resolve fs (work_base ps))
      \<and> (is_relative_to (fs_resolve fs (work_base ps)) (fs_resolve fs repo_root)
           \<or> is_relative_to (fs_resolve fs (work_base ps)) (fs_resolve fs (work_base_parent ps)))
      \<and> fs_resolve fs (work_base ps) \<noteq> fs_resolve fs repo_root
      \<and> fs_resolve fs (work_base ps) \<noteq> fs_resolve fs (work_base_parent ps)
      \<and> (fs_exists fs (work_marker ps)
           \<or> sublist ''subagent_'' (path_name (fs_resolve fs (work_base ps)))))"
  by (auto simp: is_safe_work_base_target_def Let_def)

text \<open>
  The example scratch area is safe; the root \<open>/\<close>, the repository root and the foreign
  directory \<open>/tmp/other\<close> in its place are not.
\<close>

theorem is_safe_work_base_target_conditions_witness:
  "is_safe_work_base_target example_fs example_paths example_repo
   \<and> \<not> is_safe_work_base_target example_fs (example_paths\<lparr>work_base := Path ''/'' []\<rparr>) example_repo
   \<and> \<not> is_safe_work_base_target example_fs (example_paths\<lparr>work_base := example_repo\<rparr>) example_repo
   \<and> \<not> is_safe_work_base_target example_fs
         (example_paths\<lparr>work_base := Path ''/'' [''tmp'', ''other''],
                         work_marker := Path ''/'' [''tmp'', ''other'', ''.subagent_work_base_marker'']\<rparr>)
         example_repo"
  using is_safe_work_base_target_conditions [of example_fs example_paths example_repo]
    is_safe_work_base_target_conditions
      [of example_fs "example_paths\<lparr>work_base := Path ''/'' []\<rparr>" example_repo]
    is_safe_work_base_target_conditions
      [of example_fs "example_paths\<lparr>work_base := example_repo\<rparr>" example_repo]
    is_safe_work_base_target_conditions
      [of example_fs
          "example_paths\<lparr>work_base := Path ''/'' [''tmp'', ''other''],
                         work_marker := Path ''/'' [''tmp'', ''other'', ''.subagent_work_base_marker'']\<rparr>"
          example_repo]
  by (simp_all add: example_defs)

section \<open>SafetyGuard: containment\<close>

text \<open>
  Claim C9, as stated, fails: \<open>is_relative_to\<close> is true of a path and itself.
\<close>

theorem is_relative_to_equal_paths:
  "is_relative_to (Path ''/'' [''repo'']) (Path ''/'' [''repo''])"
  by (simp add: is_relative_to_iff)

text \<open>
  Claim C9, amended. \<open>is_relative_to path parent\<close> is the containment of
  \<open>PurePath.relative_to\<close>, which is not strict: it is true exactly when \<open>path\<close> is
  \<open>parent\<close> followed by zero or more components, so also when the two are equal; and it is
  false exactly when \<open>relative_to\<close> raises \<open>ValueError\<close>.
\<close>

theorem is_relative_to_not_strict:
  "(is_relative_to p parent \<longleftrightarrow> (\<exists>rest. p = Path (anchor parent) (parts parent @ rest)))
   \<and> is_relative_to p p
   \<and> (\<not> is_relative_to p parent \<longleftrightarrow> relative_to p parent = Inl ValueError)"
proof -
  have "is_relative_to p parent \<longleftrightarrow> (\<exists>rest. p = Path (anchor parent) (parts parent @ rest))"
    by (cases p) (auto simp: is_relative_to_iff prefix_def)
  moreover have "is_relative_to p p"
    by (simp add: is_relative_to_iff)
  moreover have "\<not> is_relative_to p parent \<longleftrightarrow> relative_to p parent = Inl ValueError"
    by (simp add: is_relative_to_def relative_to_def)
  ultimately show ?thesis by blast
qed

theorem is_relative_to_not_strict_witness:
  "is_relative_to example_work_base (Path ''/'' [''tmp''])
   \<and> \<not> is_relative_to (Path ''/'' [''tmp'']) example_work_base
   \<and> relative_to (Path ''/'' [''tmp'']) example_work_base = Inl ValueError"
  using is_relative_to_not_strict [of example_work_base "Path ''/'' [''tmp'']"]
        is_relative_to_not_strict [of "Path ''/'' [''tmp'']" example_work_base]
  by (simp add: relative_to_def example_work_base_def)

section \<open>PathNormalizer: excluded paths\<close>

lemma is_excluded_path_git:
  assumes "d \<in> {[], ''a/'', ''b/'', ''./''}"
  shows "is_excluded_path (d @ ''.git'')"
proof -
  have "replace backslash ''/'' (strip_dquote (strip (d @ ''.git''))) = d @ ''.git''"
    using assms by (intro cleaned_id) (auto simp: isspace_def dquote_def backslash_def)
  then show ?thesis
    using assms by (auto simp: is_excluded_path_def startswith_def)
qed

lemma is_excluded_path_below_git:
  assumes "d \<in> {[], ''a/'', ''b/'', ''./''}"
  shows "is_excluded_path (d @ ''.git/'' @ r)"
proof -
  have "\<exists>x. replace backslash ''/'' (strip_dquote (strip ((d @ ''.git/'') @ r)))
             = (d @ ''.git/'') @ x"
    using assms by (intro cleaned_keep) (auto simp: isspace_def dquote_def backslash_def)
  then obtain x where
    "replace backslash ''/'' (strip_dquote (strip (d @ ''.git/'' @ r))) = d @ ''.git/'' @ x"
    by auto
  then show ?thesis
    using assms by (auto simp: is_excluded_path_def startswith_def)
qed

text \<open>
  Claim C5, as stated, fails: \<open>is_excluded_path\<close> does not strip a worktree root, so a
  path below \<open>.git\<close> that still carries one is not excluded.
\<close>

theorem is_excluded_path_worktree_prefix:
  "\<not> is_excluded_path ''/tmp/subagent_repo_implementation_7/pre/.git/config''"
  by (simp add: is_excluded_path_def startswith_def strip_def strip_dquote_def strip_by_def
                lstrip_by_def rstrip_by_def replace_def isspace_def dquote_def backslash_def)

text \<open>
  Claim C5, amended. \<open>is_excluded_path\<close> is true of the empty path and of every path
  that is \<open>.git\<close> or lies below it, also behind a leading \<open>a/\<close>, \<open>b/\<close> or \<open>./\<close>. (A worktree
  root in front is not its business: the callers remove it with \<open>normalize_path_value\<close>
  first.)
\<close>

theorem is_excluded_path_git_metadata:
  "is_excluded_path []
   \<and> (under_git g \<longrightarrow>
        is_excluded_path g \<and> is_excluded_path (''a/'' @ g)
        \<and> is_excluded_path (''b/'' @ g) \<and> is_excluded_path (''./'' @ g))"
proof -
  have "is_excluded_path (d @ g)" if "under_git g" "d \<in> {[], ''a/'', ''b/'', ''./''}" for d
  proof -
    from that(1) consider "g = ''.git''" | r where "g = ''.git/'' @ r"
      by (auto simp: under_git_def startswith_def prefix_def)
    then show ?thesis
      using that(2) is_excluded_path_git [of d] is_excluded_path_below_git [of d] by cases auto
  qed
  from this [of "[]"] this [of "''a/''"] this [of "''b/''"] this [of "''./''"]
  show ?thesis
    by (simp add: is_excluded_path_def)
qed

theorem is_excluded_path_git_metadata_witness:
  "under_git ''.git/config'' \<and> is_excluded_path ''.git/config''
   \<and> is_excluded_path ''a/.git/config'' \<and> is_excluded_path ''b/.git/config''
   \<and> is_excluded_path ''./.git/config''"
  using is_excluded_path_git_metadata [of "''.git/config''"]
  by (simp add: under_git_def startswith_def)

section \<open>PathNormalizer: the stat summary\<close>

lemma stat_lines_append:
  "stat_lines pf pre post (xs @ ys) = stat_lines pf pre post xs @ stat_lines pf pre post ys"
  by (induction xs) (auto simp: Let_def)

text \<open>
  Claim C10, as stated, fails for a line of whitespace only: it has no bar, and it is
  dropped, not kept as an empty line.
\<close>

theorem normalize_stat_output_blank_line:
  "CHR ''|'' \<notin> set ''  ''
   \<and> normalize_stat_output True
        (join [newline] ['' pre/src/a.txt | 2 +-'', ''  '', '' 1 file changed''])
        (pre_dir example_paths) (post_dir example_paths)
      = join [newline] [''src/a.txt | 2 +-'', ''1 file changed'']"
  by code_simp

text \<open>
  Claim C10, amended. Every line of the raw stat output that has no bar and is not
  blank is kept, in its place, with its leading whitespace removed and nothing else
  changed: it is neither dropped as excluded nor path-normalized.
\<close>

theorem normalize_stat_output_keeps_barless_line:
  assumes "CHR ''|'' \<notin> set line" and "strip line \<noteq> []"
    and "splitlines raw = before @ line # after"
  shows "normalize_stat_output pf raw pre_root post_root =
           join [newline] (stat_lines pf pre_root post_root before
                           @ lstrip line # stat_lines pf pre_root post_root after)"
  using assms by (simp add: normalize_stat_output_def stat_lines_append)

theorem normalize_stat_output_keeps_barless_line_witness:
  "CHR ''|'' \<notin> set example_stat_summary \<and> strip example_stat_summary \<noteq> []
   \<and> splitlines example_stat = ['' pre/src/a.txt | 2 +-''] @ example_stat_summary # []
   \<and> normalize_stat_output True example_stat (pre_dir example_paths) (post_dir example_paths)
       = join [newline] [''src/a.txt | 2 +-'', ''1 file changed, 1 insertion(+) under pre/src'']"
proof -
  have h1: "CHR ''|'' \<notin> set example_stat_summary"
    by code_simp
  have h2: "strip example_stat_summary \<noteq> []"
    by code_simp
  have h3: "splitlines example_stat = ['' pre/src/a.txt | 2 +-''] @ example_stat_summary # []"
    by code_simp
  have out: "join [newline]
               (stat_lines True (pre_dir example_paths) (post_dir example_paths)
                  ['' pre/src/a.txt | 2 +-'']
                @ lstrip example_stat_summary
                  # stat_lines True (pre_dir example_paths) (post_dir example_paths) [])
             = join [newline] [''src/a.txt | 2 +-'',
                               ''1 file changed, 1 insertion(+) under pre/src'']"
    by code_simp
  show ?thesis
    using normalize_stat_output_keeps_barless_line [OF h1 h2 h3] h1 h2 h3 out by simp
qed

section \<open>PathNormalizer: blocks of excluded files\<close>

lemma patch_lines_header_any_flag:
  "startswith h ''diff --git '' \<Longrightarrow>
   patch_lines pf pre post s (h # rest) = patch_lines pf pre post s' (h # rest)"
  by simp

lemma patch_lines_skip_block:
  "\<forall>x\<in>set block. \<not> startswith x ''diff --git '' \<Longrightarrow>
   patch_lines pf pre post True (block @ rest) = patch_lines pf pre post True rest"
  by (induction block) auto

lemma patch_lines_append_flag_free:
  assumes "\<And>s. patch_lines pf pre post s ys = patch_lines pf pre post False ys"
  shows "patch_lines pf pre post s (xs @ ys)
         = patch_lines pf pre post s xs @ patch_lines pf pre post False ys"
proof (induction xs arbitrary: s)
  case Nil
  show ?case using assms by simp
next
  case (Cons x xs)
  show ?case
  proof (cases "startswith x ''diff --git ''")
    case True
    obtain sk n where "handle_diff_header pf x pre post = (sk, n)"
      by (cases "handle_diff_header pf x pre post")
    then show ?thesis
      using True by (cases n) (simp_all add: Cons.IH)
  next
    case False
    then show ?thesis
      by (simp add: Cons.IH)
  qed
qed

lemma patch_lines_before_header:
  assumes "startswith h ''diff --git ''"
  shows "patch_lines pf pre post s (xs @ h # rest)
         = patch_lines pf pre post s xs @ patch_lines pf pre post False (h # rest)"
  by (rule patch_lines_append_flag_free) (rule patch_lines_header_any_flag [OF assms])

lemma handle_diff_header_excluded:
  assumes "startswith h ''diff --git ''"
    and "shlex_split (strip (drop 11 h)) = Some [l, r]"
    and "is_excluded_path (extract_normalized_path pf (quote_if_needed l) pre post)
         \<or> is_excluded_path (extract_normalized_path pf (quote_if_needed r) pre post)"
  shows "handle_diff_header pf h pre post = (True, None)"
proof -
  have "strip (drop 11 h) \<noteq> []"
    using assms(2) by (auto simp: shlex_split_def)
  then show ?thesis
    using assms by (simp add: handle_diff_header_def Let_def)
qed

text \<open>
  Claim C2. Let \<open>h\<close> be a line of the raw patch that starts with \<open>diff --git\<close>, whose
  rest \<open>shlex.split\<close> reads as two tokens, and let the canonical bare path of either
  token be excluded. Let \<open>block\<close> be the lines after \<open>h\<close> up to the next such header (or
  to the end). Then the normalized patch is made of the lines before \<open>h\<close> and of the lines
  from that next header on: neither \<open>h\<close> nor any line of \<open>block\<close> is in it.
\<close>

theorem normalize_patch_output_drops_excluded_block:
  assumes "startswith h ''diff --git ''"
    and "shlex_split (strip (drop 11 h)) = Some [l, r]"
    and "is_excluded_path (extract_normalized_path pf (quote_if_needed l) pre_root post_root)
         \<or> is_excluded_path (extract_normalized_path pf (quote_if_needed r) pre_root post_root)"
    and "\<forall>x\<in>set block. \<not> startswith x ''diff --git ''"
    and "rest = [] \<or> startswith (hd rest) ''diff --git ''"
    and "splitlines raw = before @ h # block @ rest"
  shows "normalize_patch_output pf raw pre_root post_root =
           join [newline] (patch_lines pf pre_root post_root False before
                           @ patch_lines pf pre_root post_root False rest)"
proof -
  have hdr: "handle_diff_header pf h pre_root post_root = (True, None)"
    using assms(1-3) by (rule handle_diff_header_excluded)
  have "patch_lines pf pre_root post_root False (h # block @ rest)
        = patch_lines pf pre_root post_root True (block @ rest)"
    using assms(1) hdr by simp
  also have "\<dots> = patch_lines pf pre_root post_root True rest"
    using assms(4) by (rule patch_lines_skip_block)
  also have "\<dots> = patch_lines pf pre_root post_root False rest"
  proof (cases rest)
    case Nil
    then show ?thesis by simp
  next
    case (Cons x xs)
    with assms(5) show ?thesis
      using patch_lines_header_any_flag [of x pf pre_root post_root True xs False] by simp
  qed
  finally have "patch_lines pf pre_root post_root False (h # block @ rest)
                = patch_lines pf pre_root post_root False rest" .
  then show ?thesis
    using assms(1,6) by (simp add: normalize_patch_output_def patch_lines_before_header)
qed

theorem normalize_patch_output_drops_excluded_block_witness:
  "startswith example_git_header ''diff --git ''
   \<and> shlex_split (strip (drop 11 example_git_header))
       = Some [''a/pre/.git/config'', ''b/post/.git/config'']
   \<and> is_excluded_path (extract_normalized_path True (quote_if_needed ''a/pre/.git/config'')
                          (pre_dir example_paths) (post_dir example_paths))
   \<and> splitlines example_delta = [] @ example_git_header # example_git_block @ example_src_block
   \<and> normalize_patch_output True example_delta (pre_dir example_paths) (post_dir example_paths)
       = join [newline] [''diff --git a/src/a.txt b/src/a.txt'', ''--- a/src/a.txt'',
                         ''+++ b/src/a.txt'']"
proof -
  have h1: "startswith example_git_header ''diff --git ''"
    by code_simp
  have h2: "shlex_split (strip (drop 11 example_git_header))
            = Some [''a/pre/.git/config'', ''b/post/.git/config'']"
    by code_simp
  have h3: "is_excluded_path (extract_normalized_path True (quote_if_needed ''a/pre/.git/config'')
                                (pre_dir example_paths) (post_dir example_paths))"
    by code_simp
  have h4: "\<forall>x\<in>set example_git_block. \<not> startswith x ''diff --git ''"
    by code_simp
  have h5: "example_src_block = [] \<or> startswith (hd example_src_block) ''diff --git ''"
    by code_simp
  have h6: "splitlines example_delta
            = [] @ example_git_header # example_git_block @ example_src_block"
    by code_simp
  have out: "join [newline]
               (patch_lines True (pre_dir example_paths) (post_dir example_paths) False []
                @ patch_lines True (pre_dir example_paths) (post_dir example_paths) False
                    example_src_block)
             = join [newline] [''diff --git a/src/a.txt b/src/a.txt'', ''--- a/src/a.txt'',
                               ''+++ b/src/a.txt'']"
    by code_simp
  from h3 have h3':
    "is_excluded_path (extract_normalized_path True (quote_if_needed ''a/pre/.git/config'')
                         (pre_dir example_paths) (post_dir example_paths))
     \<or> is_excluded_path (extract_normalized_path True (quote_if_needed ''b/post/.git/config'')
                            (pre_dir example_paths) (post_dir example_paths))" ..
  show ?thesis
    using normalize_patch_output_drops_excluded_block [OF h1 h2 h3' h4 h5 h6] h1 h2 h3 h6 out
    by simp
qed

section \<open>DeltaEngine: the files written\<close>


lemma run_git_log:
  "run_git run args cwd allowed t w = (r, w') \<Longrightarrow>
   git_log w' = git_log w @ [(''git'' # args, str_path cwd)]"
  by (auto simp: run_git_def Let_def split: proc_result.splits if_splits)








section \<open>WorktreeManager: a patch that does not apply\<close>

text \<open>
  Claim C7, as stated, fails when the failure of \<open>git apply\<close> is a timeout:
  \<open>apply_patch\<close> catches \<open>CalledProcessError\<close> only, so the \<open>RuntimeError\<close> of the
  timeout leaves it at once. No \<open>git worktree remove\<close> is run, and the message has no
  stderr text.
\<close>

theorem apply_patch_timeout_no_cleanup:
  "fst (apply_patch example_run_apply_timeout example_repo (post_dir example_paths)
          (post_patch example_paths) example_world)
     = Inl (RuntimeError
              (''Git command timed out after 300s: git -C ''
               @ ''/tmp/subagent_repo_implementation_7/post apply --whitespace=nowarn ''
               @ ''/repo/.subagent/post_implementation.patch''))
   \<and> git_log (snd (apply_patch example_run_apply_timeout example_repo (post_dir example_paths)
                     (post_patch example_paths) example_world))
     = [([''git'', ''worktree'', ''add'', ''--detach'',
          ''/tmp/subagent_repo_implementation_7/post'', ''HEAD''], ''/repo''),
        ([''git'', ''-C'', ''/tmp/subagent_repo_implementation_7/post'', ''apply'',
          ''--whitespace=nowarn'', ''/repo/.subagent/post_implementation.patch''], ''/repo'')]"
  by code_simp

text \<open>
  Claim C7, amended. Let \<open>git worktree add\<close> succeed. When \<open>git apply\<close> exits with a
  status other than 0, \<open>apply_patch\<close> runs \<open>git worktree remove -f\<close> on that worktree and
  then, when that command returns, whatever its status, raises the \<open>RuntimeError\<close> whose message
  is \<open>Failed to apply patch:\<close>, the patch path, and on a new line \<open>stderr:\<close> with the
  stderr text of \<open>git apply\<close>. When \<open>git apply\<close> times out, the error of the timeout is
  raised and no cleanup command is run. In both cases the three (or two) commands are all
  that \<open>apply_patch\<close> does: it writes no file itself, the patch file included. (What is
  raised when the cleanup command itself runs into the timeout is no part of this
  statement.)
\<close>

theorem apply_patch_failure:
  assumes "run (git_log w)
             ([''git'', ''worktree'', ''add'', ''--detach'', str_path worktree_dir, ''HEAD''],
              str_path repo_root) = Completed 0 out_add err_add"
  shows "(run (git_log w @
                [([''git'', ''worktree'', ''add'', ''--detach'', str_path worktree_dir, ''HEAD''],
                  str_path repo_root)])
              ([''git'', ''-C'', str_path worktree_dir, ''apply'', ''--whitespace=nowarn'',
                str_path patch_path], str_path repo_root) = Completed rc out_apply err_apply
          \<and> rc \<noteq> 0
          \<and> run (git_log w @
                [([''git'', ''worktree'', ''add'', ''--detach'', str_path worktree_dir, ''HEAD''],
                  str_path repo_root),
                 ([''git'', ''-C'', str_path worktree_dir, ''apply'', ''--whitespace=nowarn'',
                   str_path patch_path], str_path repo_root)])
              ([''git'', ''worktree'', ''remove'', ''-f'', str_path worktree_dir],
               str_path repo_root) = Completed rc_remove out_remove err_remove
          \<longrightarrow> apply_patch run repo_root worktree_dir patch_path w =
                (Inl (RuntimeError (''Failed to apply patch: '' @ str_path patch_path
                                    @ [newline] @ ''stderr: '' @ err_apply)),
                 w\<lparr>git_log := git_log w @
                    [([''git'', ''worktree'', ''add'', ''--detach'', str_path worktree_dir, ''HEAD''],
                      str_path repo_root),
                     ([''git'', ''-C'', str_path worktree_dir, ''apply'', ''--whitespace=nowarn'',
                       str_path patch_path], str_path repo_root),
                     ([''git'', ''worktree'', ''remove'', ''-f'', str_path worktree_dir],
                      str_path repo_root)]\<rparr>))
       \<and> (run (git_log w @
                [([''git'', ''worktree'', ''add'', ''--detach'', str_path worktree_dir, ''HEAD''],
                  str_path repo_root)])
              ([''git'', ''-C'', str_path worktree_dir, ''apply'', ''--whitespace=nowarn'',
                str_path patch_path], str_path repo_root) = TimeoutExpired
          \<longrightarrow> apply_patch run repo_root worktree_dir patch_path w =
                (Inl (RuntimeError (''Git command timed out after 300s: ''
                        @ join '' '' [''git'', ''-C'', str_path worktree_dir, ''apply'',
                                      ''--whitespace=nowarn'', str_path patch_path])),
                 w\<lparr>git_log := git_log w @
                    [([''git'', ''worktree'', ''add'', ''--detach'', str_path worktree_dir, ''HEAD''],
                      str_path repo_root),
                     ([''git'', ''-C'', str_path worktree_dir, ''apply'', ''--whitespace=nowarn'',
                       str_path patch_path], str_path repo_root)]\<rparr>))"
proof -
  have s300: "str_nat 300 = ''300''"
    by code_simp
  show ?thesis
    using assms
    by (cases "rc_remove = 0") (auto simp: apply_patch_def run_git_def Let_def s300)
qed

theorem apply_patch_failure_witness:
  "fst (apply_patch example_run_apply_fails example_repo (post_dir example_paths)
          (post_patch example_paths) example_world)
     = Inl (RuntimeError
              (''Failed to apply patch: /repo/.subagent/post_implementation.patch''
               @ [newline] @ ''stderr: error: patch failed: src/a.txt:1''))
   \<and> git_log (snd (apply_patch example_run_apply_fails example_repo (post_dir example_paths)
                     (post_patch example_paths) example_world))
     = [([''git'', ''worktree'', ''add'', ''--detach'',
          ''/tmp/subagent_repo_implementation_7/post'', ''HEAD''], ''/repo''),
        ([''git'', ''-C'', ''/tmp/subagent_repo_implementation_7/post'', ''apply'',
          ''--whitespace=nowarn'', ''/repo/.subagent/post_implementation.patch''], ''/repo''),
        ([''git'', ''worktree'', ''remove'', ''-f'',
          ''/tmp/subagent_repo_implementation_7/post''], ''/repo'')]
   \<and> files (snd (apply_patch example_run_apply_fails example_repo (post_dir example_paths)
                   (post_patch example_paths) example_world)) = files example_world
   \<and> git_log (snd (apply_patch example_run_apply_timeout example_repo (post_dir example_paths)
                     (post_patch example_paths) example_world))
     = [([''git'', ''worktree'', ''add'', ''--detach'',
          ''/tmp/subagent_repo_implementation_7/post'', ''HEAD''], ''/repo''),
        ([''git'', ''-C'', ''/tmp/subagent_repo_implementation_7/post'', ''apply'',
          ''--whitespace=nowarn'', ''/repo/.subagent/post_implementation.patch''], ''/repo'')]"
proof -
  have p1: "str_path (post_dir example_paths) = ''/tmp/subagent_repo_implementation_7/post''"
    by code_simp
  have p2: "str_path (post_patch example_paths) = ''/repo/.subagent/post_implementation.patch''"
    by code_simp
  have p3: "str_path example_repo = ''/repo''"
    by code_simp
  have lg: "git_log example_world = []"
    by (simp add: example_world_def)
  have a: "example_run_apply_fails (git_log example_world)
             ([''git'', ''worktree'', ''add'', ''--detach'', str_path (post_dir example_paths),
               ''HEAD''], str_path example_repo) = Completed 0 [] []"
    by (simp add: example_run_apply_fails_def p1 p3)
  have b: "example_run_apply_timeout (git_log example_world)
             ([''git'', ''worktree'', ''add'', ''--detach'', str_path (post_dir example_paths),
               ''HEAD''], str_path example_repo) = Completed 0 [] []"
    by (simp add: example_run_apply_timeout_def p1 p3)
  show ?thesis
    using apply_patch_failure
            [where run = example_run_apply_fails and w = example_world
               and worktree_dir = "post_dir example_paths" and repo_root = example_repo
               and patch_path = "post_patch example_paths" and out_add = "[]" and err_add = "[]"
               and rc = 1 and out_apply = "[]" and err_apply = "''error: patch failed: src/a.txt:1''"
               and rc_remove = 0 and out_remove = "[]" and err_remove = "[]"]
          apply_patch_failure
            [where run = example_run_apply_timeout and w = example_world
               and worktree_dir = "post_dir example_paths" and repo_root = example_repo
               and patch_path = "post_patch example_paths" and out_add = "[]" and err_add = "[]"]
          a b
    by (simp add: p1 p2 p3 lg example_run_apply_fails_def example_run_apply_timeout_def)
qed

section \<open>PathNormalizer: quoting of a diff token\<close>

lemma strip_no_space: "\<not> list_ex isspace v \<Longrightarrow> strip v = v"
proof (cases v)
  case Nil
  then show ?thesis by (simp add: strip_def)
next
  case (Cons c cs)
  assume "\<not> list_ex isspace v"
  then have "\<not> isspace (hd v)" "\<not> isspace (last v)"
    using Cons by (auto simp: list_ex_iff)
  then show ?thesis
    using Cons by (simp add: strip_def strip_by_id)
qed

lemma strip_wrapped: "strip ([dquote] @ e @ [dquote]) = [dquote] @ e @ [dquote]"
  unfolding strip_def by (rule strip_by_id) (auto simp: isspace_def dquote_def)

lemma is_quoted_wrapped: "is_quoted ([dquote] @ e @ [dquote])"
  by (auto simp: is_quoted_def startswith_def endswith_def suffix_def)

lemma unquote_wrapped: "unquote ([dquote] @ e @ [dquote]) = e"
  by (simp add: unquote_def butlast_append)

lemma escape_Cons:
  "replace dquote [backslash, dquote] (replace backslash [backslash, backslash] (c # cs)) =
     (if c = backslash then [backslash, backslash]
      else if c = dquote then [backslash, dquote] else [c])
     @ replace dquote [backslash, dquote] (replace backslash [backslash, backslash] cs)"
  by (simp add: replace_def dquote_def backslash_def)

lemma escape_Nil:
  "replace dquote [backslash, dquote] (replace backslash [backslash, backslash] []) = []"
  by (simp add: replace_def)

lemma special_chars:
  "backslash \<noteq> CHR ''a''" "backslash \<noteq> CHR ''b''" "backslash \<noteq> CHR ''/''"
  "dquote \<noteq> CHR ''a''" "dquote \<noteq> CHR ''b''" "dquote \<noteq> CHR ''/''"
  by (simp_all add: backslash_def dquote_def)

lemma escape_keeps_diff_prefix:
  assumes "x = CHR ''a'' \<or> x = CHR ''b''"
  shows "startswith (replace dquote [backslash, dquote]
                       (replace backslash [backslash, backslash] v)) [x, CHR ''/'']
         \<longleftrightarrow> startswith v [x, CHR ''/'']"
proof (cases v)
  case Nil
  then show ?thesis by (simp add: escape_Nil startswith_def)
next
  case (Cons c cs)
  show ?thesis
  proof (cases cs)
    case Nil
    with Cons assms show ?thesis
      using special_chars by (auto simp: escape_Cons escape_Nil startswith_def)
  next
    case (Cons c' cs')
    with \<open>v = c # cs\<close> assms show ?thesis
      using special_chars by (auto simp: escape_Cons startswith_def)
  qed
qed

lemma escape_split_diff_prefix:
  "fst (split_diff_prefix (replace dquote [backslash, dquote]
                             (replace backslash [backslash, backslash] v)))
   = fst (split_diff_prefix v)"
  using escape_keeps_diff_prefix [of "CHR ''a''" v] escape_keeps_diff_prefix [of "CHR ''b''" v]
  by (simp add: split_diff_prefix_def)

lemma normalize_diff_token_shape:
  "normalize_diff_token pf token pre post =
     (let t = strip token;
          d = fst (split_diff_prefix (if is_quoted t then unquote t else t));
          path = extract_normalized_path pf token pre post;
          body = (if path \<noteq> [] then d @ path else rstrip_by (\<lambda>c. c = CHR ''/'') d)
      in if is_quoted t then [dquote] @ body @ [dquote] else body)"
  by (simp add: normalize_diff_token_def extract_normalized_path_def split_diff_prefix_def Let_def)

lemma quote_if_needed_token:
  "normalize_diff_token pf (quote_if_needed v) pre post =
     (let d = fst (split_diff_prefix (if is_quoted v \<and> \<not> list_ex isspace v then unquote v else v));
          path = extract_normalized_path pf (quote_if_needed v) pre post;
          body = (if path \<noteq> [] then d @ path else rstrip_by (\<lambda>c. c = CHR ''/'') d)
      in if list_ex isspace v \<or> is_quoted v then [dquote] @ body @ [dquote] else body)"
proof (cases "list_ex isspace v")
  case True
  let ?e = "replace dquote [backslash, dquote] (replace backslash [backslash, backslash] v)"
  have q: "quote_if_needed v = [dquote] @ ?e @ [dquote]"
    using True by (simp add: quote_if_needed_def)
  have "normalize_diff_token pf ([dquote] @ ?e @ [dquote]) pre post =
          (let d = fst (split_diff_prefix v);
               path = extract_normalized_path pf ([dquote] @ ?e @ [dquote]) pre post;
               body = (if path \<noteq> [] then d @ path else rstrip_by (\<lambda>c. c = CHR ''/'') d)
           in [dquote] @ body @ [dquote])"
    using normalize_diff_token_shape [of pf "[dquote] @ ?e @ [dquote]" pre post]
    by (simp only: strip_wrapped is_quoted_wrapped unquote_wrapped escape_split_diff_prefix
                   if_True Let_def)
  then show ?thesis
    using True by (simp add: q Let_def)
next
  case False
  then have q: "quote_if_needed v = v" and s: "strip v = v"
    by (simp_all add: quote_if_needed_def strip_no_space)
  show ?thesis
    using False by (simp add: normalize_diff_token_shape [of pf v] q s Let_def)
qed

text \<open>
  Claim C6, as stated, fails: a token that contains whitespace and is not quoted, as
  the path of a \<open>---\<close> line is, comes back bare.
\<close>

theorem normalize_diff_token_unquoted_whitespace:
  "list_ex isspace ''a/pre/my file.txt''
   \<and> normalize_diff_token True ''a/pre/my file.txt'' (pre_dir example_paths) (post_dir example_paths)
       = ''a/my file.txt''"
  by code_simp

text \<open>
  Claim C6, amended. \<open>normalize_diff_token\<close> returns the canonical path of the token
  (what \<open>extract_normalized_path\<close> returns for it) behind the token's own \<open>a/\<close> or \<open>b/\<close>,
  or that prefix without its slash when the path is empty; the result is wrapped in double
  quotes exactly when the stripped token starts and ends with a double quote, and is bare
  otherwise, whitespace or not. In \<open>handle_diff_header\<close> each token \<open>v\<close> that \<open>shlex.split\<close>
  yields goes through \<open>quote_if_needed\<close> first, and so each side of the rebuilt header is
  wrapped in double quotes exactly when \<open>v\<close> contains whitespace or itself starts and ends
  with a double quote, and is bare otherwise; the \<open>a/\<close> or \<open>b/\<close> reattached is that of \<open>v\<close>.
\<close>

theorem diff_token_quoting:
  "normalize_diff_token pf token pre_root post_root =
     (let t = strip token;
          d = fst (split_diff_prefix (if is_quoted t then unquote t else t));
          path = extract_normalized_path pf token pre_root post_root;
          body = (if path \<noteq> [] then d @ path else rstrip_by (\<lambda>c. c = CHR ''/'') d)
      in if is_quoted t then [dquote] @ body @ [dquote] else body)
   \<and> normalize_diff_token pf (quote_if_needed v) pre_root post_root =
     (let d = fst (split_diff_prefix (if is_quoted v \<and> \<not> list_ex isspace v then unquote v else v));
          path = extract_normalized_path pf (quote_if_needed v) pre_root post_root;
          body = (if path \<noteq> [] then d @ path else rstrip_by (\<lambda>c. c = CHR ''/'') d)
      in if list_ex isspace v \<or> is_quoted v then [dquote] @ body @ [dquote] else body)
   \<and> fst (split_diff_prefix x) \<in> {[], ''a/'', ''b/''}
   \<and> (startswith line ''diff --git ''
       \<and> shlex_split (strip (drop 11 line)) = Some [l, r]
       \<and> \<not> is_excluded_path (extract_normalized_path pf (quote_if_needed l) pre_root post_root)
       \<and> \<not> is_excluded_path (extract_normalized_path pf (quote_if_needed r) pre_root post_root)
       \<longrightarrow> handle_diff_header pf line pre_root post_root =
             (False, Some (''diff --git ''
                           @ normalize_diff_token pf (quote_if_needed l) pre_root post_root
                           @ '' ''
                           @ normalize_diff_token pf (quote_if_needed r) pre_root post_root)))"
proof (intro conjI impI)
  show "normalize_diff_token pf token pre_root post_root =
     (let t = strip token;
          d = fst (split_diff_prefix (if is_quoted t then unquote t else t));
          path = extract_normalized_path pf token pre_root post_root;
          body = (if path \<noteq> [] then d @ path else rstrip_by (\<lambda>c. c = CHR ''/'') d)
      in if is_quoted t then [dquote] @ body @ [dquote] else body)"
    by (rule normalize_diff_token_shape)
  show "normalize_diff_token pf (quote_if_needed v) pre_root post_root =
     (let d = fst (split_diff_prefix (if is_quoted v \<and> \<not> list_ex isspace v then unquote v else v));
          path = extract_normalized_path pf (quote_if_needed v) pre_root post_root;
          body = (if path \<noteq> [] then d @ path else rstrip_by (\<lambda>c. c = CHR ''/'') d)
      in if list_ex isspace v \<or> is_quoted v then [dquote] @ body @ [dquote] else body)"
    by (rule quote_if_needed_token)
  show "fst (split_diff_prefix x) \<in> {[], ''a/'', ''b/''}"
    by (simp add: split_diff_prefix_def)
next
  assume a: "startswith line ''diff --git ''
       \<and> shlex_split (strip (drop 11 line)) = Some [l, r]
       \<and> \<not> is_excluded_path (extract_normalized_path pf (quote_if_needed l) pre_root post_root)
       \<and> \<not> is_excluded_path (extract_normalized_path pf (quote_if_needed r) pre_root post_root)"
  then have "strip (drop 11 line) \<noteq> []"
    by (auto simp: shlex_split_def)
  with a show "handle_diff_header pf line pre_root post_root =
             (False, Some (''diff --git ''
                           @ normalize_diff_token pf (quote_if_needed l) pre_root post_root
                           @ '' ''
                           @ normalize_diff_token pf (quote_if_needed r) pre_root post_root))"
    by (simp add: handle_diff_header_def Let_def)
qed

theorem diff_token_quoting_witness:
  "normalize_diff_token True (quote_if_needed ''a/pre/my file.txt'')
       (pre_dir example_paths) (post_dir example_paths)
     = [dquote] @ ''a/my file.txt'' @ [dquote]
   \<and> list_ex isspace ''a/pre/my file.txt''
   \<and> normalize_diff_token True (quote_if_needed ''b/post/z.txt'')
       (pre_dir example_paths) (post_dir example_paths) = ''b/z.txt''
   \<and> \<not> list_ex isspace ''b/post/z.txt'' \<and> \<not> is_quoted ''b/post/z.txt''
   \<and> startswith example_quoted_header ''diff --git ''
   \<and> shlex_split (strip (drop 11 example_quoted_header))
       = Some [''a/pre/my file.txt'', ''b/post/z.txt'']
   \<and> handle_diff_header True example_quoted_header (pre_dir example_paths) (post_dir example_paths)
       = (False, Some (''diff --git '' @ [dquote] @ ''a/my file.txt'' @ [dquote] @ '' b/z.txt''))"
proof -
  have w1: "list_ex isspace ''a/pre/my file.txt''"
    by code_simp
  have w2: "\<not> list_ex isspace ''b/post/z.txt''" "\<not> is_quoted ''b/post/z.txt''"
    by code_simp+
  have d1: "fst (split_diff_prefix ''a/pre/my file.txt'') = ''a/''"
    by code_simp
  have d2: "fst (split_diff_prefix ''b/post/z.txt'') = ''b/''"
    by code_simp
  have e1: "extract_normalized_path True (quote_if_needed ''a/pre/my file.txt'')
              (pre_dir example_paths) (post_dir example_paths) = ''my file.txt''"
    by code_simp
  have e2: "extract_normalized_path True (quote_if_needed ''b/post/z.txt'')
              (pre_dir example_paths) (post_dir example_paths) = ''z.txt''"
    by code_simp
  have x1: "\<not> is_excluded_path ''my file.txt''" "\<not> is_excluded_path ''z.txt''"
    by code_simp+
  have h1: "startswith example_quoted_header ''diff --git ''"
    by code_simp
  have h2: "shlex_split (strip (drop 11 example_quoted_header))
            = Some [''a/pre/my file.txt'', ''b/post/z.txt'']"
    by code_simp
  have t1: "normalize_diff_token True (quote_if_needed ''a/pre/my file.txt'')
              (pre_dir example_paths) (post_dir example_paths)
            = [dquote] @ ''a/my file.txt'' @ [dquote]"
    using diff_token_quoting
            [where pf = True and pre_root = "pre_dir example_paths"
               and post_root = "post_dir example_paths" and v = "''a/pre/my file.txt''",
             THEN conjunct2, THEN conjunct1] d1 e1
    by (simp add: Let_def isspace_def)
  have t2: "normalize_diff_token True (quote_if_needed ''b/post/z.txt'')
              (pre_dir example_paths) (post_dir example_paths) = ''b/z.txt''"
    using diff_token_quoting
            [where pf = True and pre_root = "pre_dir example_paths"
               and post_root = "post_dir example_paths" and v = "''b/post/z.txt''",
             THEN conjunct2, THEN conjunct1] w2(2) d2 e2
    by (simp add: Let_def isspace_def)
  have t3: "handle_diff_header True example_quoted_header
              (pre_dir example_paths) (post_dir example_paths)
            = (False, Some (''diff --git '' @ [dquote] @ ''a/my file.txt'' @ [dquote] @ '' b/z.txt''))"
    using diff_token_quoting
            [where pf = True and pre_root = "pre_dir example_paths"
               and post_root = "post_dir example_paths" and line = example_quoted_header
               and l = "''a/pre/my file.txt''" and r = "''b/post/z.txt''",
             THEN conjunct2, THEN conjunct2, THEN conjunct2]
          h1 h2 e1 e2 x1 t1 t2
    by simp
  show ?thesis
    using w1 w2 h1 h2 t1 t2 t3 by blast
qed

text \<open>
  The statement above says nothing of the characters inside a wrapped path. The
  backslashes that \<open>quote_if_needed\<close> puts in front of a double quote or a backslash do
  not reach the output as escapes: \<open>normalize_path_value\<close> turns every backslash into a
  slash.
\<close>

lemma quote_if_needed_escapes_not_kept:
  "normalize_diff_token True (quote_if_needed (''a/pre/my '' @ [dquote] @ ''f'' @ [dquote] @ ''.txt''))
     (pre_dir example_paths) (post_dir example_paths)
   = [dquote] @ ''a/my /'' @ [dquote] @ ''f/'' @ [dquote] @ ''.txt'' @ [dquote]"
  by code_simp

section \<open>PathNormalizer: normalizing twice\<close>

lemma strip_prefix_step_keep:
  "\<not> startswith v (pfx @ ''/'') \<Longrightarrow> v \<noteq> pfx \<Longrightarrow> strip_prefix_step v pfx = v"
  by (simp add: strip_prefix_step_def)

lemma strip_prefix_step_subset: "set (strip_prefix_step v pfx) \<subseteq> set v"
  by (auto simp: strip_prefix_step_def dest: in_set_dropD)

lemma foldl_strip_prefix_step_subset: "set (foldl strip_prefix_step v ps) \<subseteq> set v"
proof (induction ps arbitrary: v)
  case Nil
  show ?case by simp
next
  case (Cons a ps)
  have "set (foldl strip_prefix_step (strip_prefix_step v a) ps) \<subseteq> set (strip_prefix_step v a)"
    by (rule Cons.IH)
  then show ?case
    using strip_prefix_step_subset [of v a] by auto
qed

lemma normalize_path_value_no_backslash:
  "backslash \<notin> set (normalize_path_value pf p pre post)"
proof -
  let ?v0 = "replace backslash ''/'' (strip_dquote (strip p))"
  let ?v1 = "foldl strip_prefix_step ?v0 (prefix_set pf pre post)"
  have "backslash \<notin> set ?v1"
    using foldl_strip_prefix_step_subset [of ?v0 "prefix_set pf pre post"]
          replace_backslash_free [of "strip_dquote (strip p)"] by auto
  then show ?thesis
    by (auto simp: normalize_path_value_def Let_def dest: in_set_dropD)
qed

lemma normalize_path_value_fixed:
  assumes "strip p = p" "strip_dquote p = p" "backslash \<notin> set p"
    and "\<not> startswith p (as_posix pre @ ''/'')" "p \<noteq> as_posix pre"
    and "\<not> startswith p (as_posix post @ ''/'')" "p \<noteq> as_posix post"
    and "\<not> startswith p ''pre/''" "\<not> startswith p ''post/''"
  shows "normalize_path_value pf p pre post = p"
proof -
  have v0: "replace backslash ''/'' (strip_dquote (strip p)) = p"
    using assms(1-3) by (simp add: replace_absent)
  have "foldl strip_prefix_step p (prefix_set pf pre post) = p"
    using assms(4-7) by (simp add: prefix_set_def strip_prefix_step_keep)
  then show ?thesis
    using assms(8,9) by (simp add: normalize_path_value_def v0)
qed

text \<open>
  Claim C3, as stated, fails: one call removes one layer of prefixes, so a second call
  can remove another.
\<close>

theorem normalize_path_value_not_idempotent:
  "normalize_path_value True
     (normalize_path_value True ''pre/pre/x.txt'' (pre_dir example_paths) (post_dir example_paths))
     (pre_dir example_paths) (post_dir example_paths)
   \<noteq> normalize_path_value True ''pre/pre/x.txt'' (pre_dir example_paths) (post_dir example_paths)"
  by code_simp

text \<open>
  Claim C3, amended. A second call of \<open>normalize_path_value\<close> changes nothing whenever the
  result \<open>q\<close> of the first call has nothing left to strip: no whitespace and no double
  quote at either end, no worktree root in front (nor is it one), and no leading \<open>pre/\<close> or
  \<open>post/\<close>. (That \<open>q\<close> has no backslash need not be asked: no result has one.) This holds
  for either order in which the two roots are tried, in the first call and in the second.
\<close>

theorem normalize_path_value_idempotent_when_stripped:
  assumes "q = normalize_path_value pf p pre_root post_root"
    and "strip q = q" and "strip_dquote q = q"
    and "\<not> startswith q (as_posix pre_root @ ''/'')" and "q \<noteq> as_posix pre_root"
    and "\<not> startswith q (as_posix post_root @ ''/'')" and "q \<noteq> as_posix post_root"
    and "\<not> startswith q ''pre/''" and "\<not> startswith q ''post/''"
  shows "normalize_path_value pf' q pre_root post_root = q"
proof -
  have "backslash \<notin> set q"
    unfolding assms(1) by (rule normalize_path_value_no_backslash)
  with assms(2-9) show ?thesis
    by (intro normalize_path_value_fixed)
qed

theorem normalize_path_value_idempotent_when_stripped_witness:
  "''src/a.txt'' = normalize_path_value True ''/tmp/subagent_repo_implementation_7/pre/src/a.txt''
                     (pre_dir example_paths) (post_dir example_paths)
   \<and> strip ''src/a.txt'' = ''src/a.txt'' \<and> strip_dquote ''src/a.txt'' = ''src/a.txt''
   \<and> \<not> startswith ''src/a.txt'' ''pre/'' \<and> \<not> startswith ''src/a.txt'' ''post/''
   \<and> normalize_path_value False ''src/a.txt'' (pre_dir example_paths) (post_dir example_paths)
       = ''src/a.txt''"
proof -
  have h1: "''src/a.txt'' = normalize_path_value True
              ''/tmp/subagent_repo_implementation_7/pre/src/a.txt''
              (pre_dir example_paths) (post_dir example_paths)"
    by code_simp
  have h2: "strip ''src/a.txt'' = ''src/a.txt''"
    by code_simp
  have h3: "strip_dquote ''src/a.txt'' = ''src/a.txt''"
    by code_simp
  have h4: "\<not> startswith ''src/a.txt'' (as_posix (pre_dir example_paths) @ ''/'')"
    by code_simp
  have h5: "''src/a.txt'' \<noteq> as_posix (pre_dir example_paths)"
    by code_simp
  have h6: "\<not> startswith ''src/a.txt'' (as_posix (post_dir example_paths) @ ''/'')"
    by code_simp
  have h7: "''src/a.txt'' \<noteq> as_posix (post_dir example_paths)"
    by code_simp
  have h8: "\<not> startswith ''src/a.txt'' ''pre/''"
    by code_simp
  have h9: "\<not> startswith ''src/a.txt'' ''post/''"
    by code_simp
  show ?thesis
    using normalize_path_value_idempotent_when_stripped [OF h1 h2 h3 h4 h5 h6 h7 h8 h9, of False]
          h1 h2 h3 h8 h9
    by blast
qed

section \<open>PathNormalizer: canonical paths and headers\<close>

lemma plain_token_Cons:
  "plain_token (c # u) \<longleftrightarrow>
     \<not> isspace c \<and> \<not> shlex_whitespace c \<and> \<not> shlex_quote c \<and> c \<noteq> backslash \<and> plain_token u"
  by (auto simp: plain_token_def)

lemma plain_token_append: "plain_token (u @ v) \<longleftrightarrow> plain_token u \<and> plain_token v"
  by (auto simp: plain_token_def list_ex_iff)

lemma plain_token_no_space: "plain_token u \<Longrightarrow> \<not> list_ex isspace u"
  by (auto simp: plain_token_def list_ex_iff)

lemma plain_token_char: "plain_token u \<Longrightarrow> c \<in> set u \<Longrightarrow>
  \<not> isspace c \<and> c \<noteq> dquote \<and> c \<noteq> backslash"
  by (auto simp: plain_token_def list_ex_iff shlex_quote_def)

lemma read_tokens_word:
  "plain_token u \<Longrightarrow>
   read_tokens InWord quoted tok (u @ rest) = read_tokens InWord quoted (tok @ u) rest"
proof (induction u arbitrary: tok)
  case Nil
  show ?case by simp
next
  case (Cons c u)
  then show ?case
    by (simp add: plain_token_Cons)
qed

lemma read_tokens_start:
  assumes "plain_token u" "u \<noteq> []"
  shows "read_tokens Blank False [] (u @ rest) = read_tokens InWord False u rest"
proof -
  obtain c u' where u: "u = c # u'"
    using assms(2) by (cases u) auto
  with assms(1) have "read_tokens Blank False [] (u @ rest) = read_tokens InWord False [c] (u' @ rest)"
    by (simp add: plain_token_Cons)
  also have "\<dots> = read_tokens InWord False ([c] @ u') rest"
    using assms(1) u by (intro read_tokens_word) (simp add: plain_token_Cons)
  finally show ?thesis
    using u by simp
qed

lemma shlex_split_two_plain:
  assumes "plain_token u" "u \<noteq> []" "plain_token v" "v \<noteq> []"
  shows "shlex_split (u @ '' '' @ v) = Some [u, v]"
proof -
  have "read_tokens Blank False [] (v @ []) = read_tokens InWord False v []"
    using assms(3,4) by (rule read_tokens_start)
  then have v: "read_tokens Blank False [] v = Some [v]"
    using assms(4) by simp
  have "shlex_split (u @ '' '' @ v) = read_tokens InWord False u ('' '' @ v)"
    unfolding shlex_split_def using assms(1,2) by (rule read_tokens_start)
  also have "\<dots> = Some [u, v]"
    using assms(2) v by (simp add: shlex_whitespace_def emit_def)
  finally show ?thesis .
qed


lemma canonical_path_fixed:
  "canonical_path p pre post \<Longrightarrow> normalize_path_value pf p pre post = p"
  by (intro normalize_path_value_fixed) (simp_all add: canonical_path_def)

lemma not_excluded_nonempty: "\<not> is_excluded_path l \<Longrightarrow> l \<noteq> []"
  by (auto simp: is_excluded_path_def)

lemma prefixed_token_strip:
  assumes "d \<in> {''a/'', ''b/''}" "plain_token l" "l \<noteq> []"
  shows "strip ((d @ l) @ rest) = (d @ l) @ rstrip_by isspace rest"
proof -
  have "\<not> isspace (last l)"
    using assms(2,3) plain_token_char [of l "last l"] by simp
  then show ?thesis
    unfolding strip_def using assms
    by (intro strip_by_keep) (auto simp: isspace_def)
qed

lemma prefixed_token:
  assumes "d \<in> {''a/'', ''b/''}" "canonical_path l pre post" "plain_token l"
    and "\<not> is_excluded_path l"
  shows "quote_if_needed (d @ l) = d @ l"
    and "extract_normalized_path pf (d @ l) pre post = l"
    and "normalize_diff_token pf (d @ l) pre post = d @ l"
proof -
  have ne: "l \<noteq> []"
    using assms(4) by (rule not_excluded_nonempty)
  have pl: "plain_token (d @ l)"
    using assms(1,3)
    by (auto simp: plain_token_append plain_token_Cons plain_token_def isspace_def
                   shlex_whitespace_def shlex_quote_def squote_def dquote_def backslash_def)
  show "quote_if_needed (d @ l) = d @ l"
    using plain_token_no_space [OF pl] by (simp add: quote_if_needed_def)
  have st: "strip (d @ l) = d @ l"
    using prefixed_token_strip [OF assms(1,3) ne, of "[]"] by (simp add: rstrip_by_def)
  have nq: "\<not> is_quoted (d @ l)"
    using assms(1) by (auto simp: is_quoted_def startswith_def dquote_def)
  have sp: "split_diff_prefix (d @ l) = (d, l)"
    using assms(1) by (auto simp: split_diff_prefix_def startswith_def)
  have dr: "(if startswith (d @ l) ''a/'' \<or> startswith (d @ l) ''b/'' then drop 2 (d @ l) else d @ l) = l"
    using assms(1) by (auto simp: startswith_def)
  show "extract_normalized_path pf (d @ l) pre post = l"
    using canonical_path_fixed [OF assms(2)]
    by (simp add: extract_normalized_path_def st nq dr del: append.simps)
  show "normalize_diff_token pf (d @ l) pre post = d @ l"
    using canonical_path_fixed [OF assms(2)] ne
    by (simp add: normalize_diff_token_def st nq sp del: append.simps)
qed

text \<open>
  Claim C4, as stated, fails for the header: \<open>.git/config\<close> is a repository-relative
  path without any prefix, and a header that names it is not returned unchanged but
  dropped.
\<close>

theorem handle_diff_header_drops_canonical_git_path:
  "canonical_path ''.git/config'' (pre_dir example_paths) (post_dir example_paths)
   \<and> handle_diff_header True ''diff --git a/.git/config b/.git/config''
        (pre_dir example_paths) (post_dir example_paths) = (True, None)"
  by code_simp

text \<open>
  Claim C4, amended. \<open>normalize_path_value\<close> returns every canonical path as it is, where
  canonical means: no whitespace and no double quote at either end, no backslash, no
  worktree root in front, and no leading \<open>pre/\<close> or \<open>post/\<close>. And \<open>handle_diff_header\<close>
  returns the header \<open>diff --git a/l b/r\<close> unchanged, with the flag false, when \<open>l\<close> and
  \<open>r\<close> are canonical, are not excluded, and have no whitespace, quote or backslash in
  them (so that \<open>shlex.split\<close> reads each token as it stands).
\<close>

theorem canonical_round_trip:
  "(canonical_path p pre_root post_root \<longrightarrow> normalize_path_value pf p pre_root post_root = p)
   \<and> (canonical_path l pre_root post_root \<and> canonical_path r pre_root post_root
       \<and> plain_token l \<and> plain_token r \<and> \<not> is_excluded_path l \<and> \<not> is_excluded_path r
       \<and> dl \<in> {''a/'', ''b/''} \<and> dr \<in> {''a/'', ''b/''}
       \<longrightarrow> handle_diff_header pf (''diff --git '' @ dl @ l @ '' '' @ dr @ r) pre_root post_root
            = (False, Some (''diff --git '' @ dl @ l @ '' '' @ dr @ r)))"
proof (intro conjI impI)
  assume "canonical_path p pre_root post_root"
  then show "normalize_path_value pf p pre_root post_root = p"
    by (rule canonical_path_fixed)
next
  assume a: "canonical_path l pre_root post_root \<and> canonical_path r pre_root post_root
       \<and> plain_token l \<and> plain_token r \<and> \<not> is_excluded_path l \<and> \<not> is_excluded_path r
       \<and> dl \<in> {''a/'', ''b/''} \<and> dr \<in> {''a/'', ''b/''}"
  let ?L = "dl @ l" and ?R = "dr @ r"
  let ?h = "''diff --git '' @ ?L @ '' '' @ ?R"
  have nel: "l \<noteq> []" and ner: "r \<noteq> []"
    using a by (auto dest: not_excluded_nonempty)
  have plL: "plain_token ?L" and plR: "plain_token ?R"
    using a by (auto simp: plain_token_append plain_token_Cons plain_token_def isspace_def
                   shlex_whitespace_def shlex_quote_def squote_def dquote_def backslash_def)
  have sw: "startswith ?h ''diff --git ''"
    by (simp add: startswith_def)
  have dr: "drop 11 ?h = ?L @ '' '' @ ?R"
    by simp
  have "strip (?L @ ('' '' @ ?R)) = ?L @ rstrip_by isspace ('' '' @ ?R)"
    using a nel by (intro prefixed_token_strip) auto
  moreover have "rstrip_by isspace ('' '' @ ?R) = '' '' @ ?R"
  proof -
    have "\<not> isspace (last r)"
      using a ner plain_token_char [of r "last r"] by simp
    then have "rstrip_by isspace (('' '' @ ?R) @ []) = ('' '' @ ?R) @ rstrip_by isspace []"
      using ner by (intro rstrip_by_keep) auto
    then show ?thesis
      by (simp add: rstrip_by_def)
  qed
  ultimately have st: "strip (drop 11 ?h) = ?L @ '' '' @ ?R"
    by (simp only: dr)
  have ne: "?L @ '' '' @ ?R \<noteq> []"
    using nel by simp
  have sh: "shlex_split (?L @ '' '' @ ?R) = Some [?L, ?R]"
    using plL plR nel ner by (intro shlex_split_two_plain) auto
  have tl: "quote_if_needed ?L = ?L" "extract_normalized_path pf ?L pre_root post_root = l"
           "normalize_diff_token pf ?L pre_root post_root = ?L"
    using a by (auto intro: prefixed_token)
  have tr: "quote_if_needed ?R = ?R" "extract_normalized_path pf ?R pre_root post_root = r"
           "normalize_diff_token pf ?R pre_root post_root = ?R"
    using a by (auto intro: prefixed_token)
  have "handle_diff_header pf ?h pre_root post_root = (False, Some ?h)"
    unfolding handle_diff_header_def
    using a ne by (simp only: sw st sh Let_def) (simp add: tl tr)
  then show "handle_diff_header pf (''diff --git '' @ dl @ l @ '' '' @ dr @ r) pre_root post_root
             = (False, Some (''diff --git '' @ dl @ l @ '' '' @ dr @ r))"
    by simp
qed

theorem canonical_round_trip_witness:
  "canonical_path ''src/a.txt'' (pre_dir example_paths) (post_dir example_paths)
   \<and> plain_token ''src/a.txt'' \<and> \<not> is_excluded_path ''src/a.txt''
   \<and> normalize_path_value True ''src/a.txt'' (pre_dir example_paths) (post_dir example_paths)
       = ''src/a.txt''
   \<and> handle_diff_header True ''diff --git a/src/a.txt b/src/a.txt''
        (pre_dir example_paths) (post_dir example_paths)
       = (False, Some ''diff --git a/src/a.txt b/src/a.txt'')"
proof -
  have h1: "canonical_path ''src/a.txt'' (pre_dir example_paths) (post_dir example_paths)"
    by code_simp
  have h2: "plain_token ''src/a.txt''"
    by code_simp
  have h3: "\<not> is_excluded_path ''src/a.txt''"
    by code_simp
  show ?thesis
    using canonical_round_trip [of "''src/a.txt''" "pre_dir example_paths" "post_dir example_paths"
            True "''src/a.txt''" "''src/a.txt''" "''a/''" "''b/''"] h1 h2 h3
    by simp
qed

end
